theory Spec2Isabelle
  imports Main "HOL-Library.Word" "HOL-Library.Sublist" "HOL-Library.AList"
begin

unbundle bit_operations_syntax

section \<open>API types (pkg/api)\<close>

text \<open>
  \<^verbatim>\<open>type PodStatus string\<close>: a pod status is an arbitrary string; the five
  constants below are the ones the code writes. A JSON body may carry any other string,
  and the registry only replaces the empty one.
\<close>

type_synonym PodStatus = string

abbreviation PodPending :: PodStatus where "PodPending \<equiv> ''Pending''"
abbreviation PodRunning :: PodStatus where "PodRunning \<equiv> ''Running''"
abbreviation PodSucceeded :: PodStatus where "PodSucceeded \<equiv> ''Succeeded''"
abbreviation PodFailed :: PodStatus where "PodFailed \<equiv> ''Failed''"
abbreviation PodScheduled :: PodStatus where "PodScheduled \<equiv> ''Scheduled''"

text \<open>
  \<^verbatim>\<open>ObjectMeta\<close> is embedded in every resource; \<^verbatim>\<open>CreationTimestamp\<close>
  (a \<^verbatim>\<open>time.Time\<close>) is kept as an integer instant, the zero time being 0.
\<close>

record ObjectMeta =
  Name :: string
  Namespace :: string
  UID :: string
  ResourceVersion :: string
  CreationTimestamp :: int

text \<open>The Go fields of \<^verbatim>\<open>Container\<close> are \<^verbatim>\<open>Name\<close> and \<^verbatim>\<open>Image\<close>.\<close>

record Container =
  ContainerName :: string
  Image :: string

record PodSpec =
  Containers :: "Container list"
  Replicas :: "32 word"

record Pod =
  Meta :: ObjectMeta
  Spec :: PodSpec
  NodeName :: string
  Status :: PodStatus

text \<open>
  \<^verbatim>\<open>Pod.Validate\<close> runs the go-playground validator over the struct tags:
  \<^verbatim>\<open>Name\<close> required, \<^verbatim>\<open>Containers\<close> \<^verbatim>\<open>required,dive,required\<close>, each
  container's \<^verbatim>\<open>Name\<close> and \<^verbatim>\<open>Image\<close> required, and \<^verbatim>\<open>Replicas\<close>
  \<^verbatim>\<open>gte=0\<close>. The validator is a library, so the reading of the tags is the one of
  the package's tests: an empty name, a missing container list, a container without
  name or image and a negative replica count are rejected. Go tells a missing (nil)
  slice from an empty one and lists do not: the empty list stands for the missing one
  and is rejected. Neither \<^verbatim>\<open>NodeName\<close> nor \<^verbatim>\<open>Status\<close> carries a
  tag, so validation does not read them. The statements below use \<open>Validate\<close> only
  through its result, and the examples only pods with at least one container.
\<close>

datatype error =
    ErrNotFound
  | ErrInvalidPodSpec
  | ErrPodAlreadyExists
  | ErrPodNotFound
  | ErrListPodsFailed
  | ErrPodInvalid
  | ErrInternal
  | ErrReplicaSetExists
  | ErrReplicaSetNotFound
  | ErrListReplicaSets
  | ErrListNodesFailed
  | ErrReadEntity
  | ErrSchedulerListPods
  | ErrSchedulerListNodes
  | ErrNoNodesAvailable
  | ErrSchedulerUpdatePod

definition Validate :: "Pod \<Rightarrow> error option" where
  "Validate p =
     (if Name (Meta p) \<noteq> [] \<and> Containers (Spec p) \<noteq> [] \<and>
         list_all (\<lambda>c. ContainerName c \<noteq> [] \<and> Image c \<noteq> []) (Containers (Spec p)) \<and>
         0 \<le> sint (Replicas (Spec p))
      then None else Some ErrInvalidPodSpec)"

definition IsActive :: "Pod \<Rightarrow> bool" where
  "IsActive p = (Status p \<noteq> PodFailed)"

text \<open>\<^verbatim>\<open>strings.HasPrefix(pod.Name, meta.Name)\<close>\<close>

definition IsOwnedBy :: "Pod \<Rightarrow> ObjectMeta \<Rightarrow> bool" where
  "IsOwnedBy pod meta = prefix (Name meta) (Name (Meta pod))"

definition IsPodActiveAndOwnedBy :: "Pod \<Rightarrow> ObjectMeta \<Rightarrow> bool" where
  "IsPodActiveAndOwnedBy pod meta = (IsOwnedBy pod meta \<and> IsActive pod)"

record NodeSpec =
  Unschedulable :: bool
  ProviderID :: string

record Node =
  NodeMeta :: ObjectMeta
  NodeSpecOf :: NodeSpec
  NodeStatus :: string

record PodTemplateSpec =
  TemplateMeta :: ObjectMeta
  TemplateSpec :: PodSpec

record ReplicaSetSpec =
  RSReplicas :: "32 word"
  Selector :: "(string \<times> string) list"
  Template :: PodTemplateSpec

record ReplicaSetStatus =
  StatusReplicas :: "32 word"
  FullyLabeledReplicas :: "32 word"
  ReadyReplicas :: "32 word"
  AvailableReplicas :: "32 word"

record ReplicaSet =
  RSMeta :: ObjectMeta
  RSSpec :: ReplicaSetSpec
  RSStatus :: ReplicaSetStatus

section \<open>Storage (pkg/storage)\<close>

text \<open>
  \<^verbatim>\<open>EtcdStorage\<close> encodes objects as JSON and calls the etcd client. The client and
  the codec are outside the repository; the store here is a healthy one: a put, a get and
  a delete reach the backend, and an object read back is the object written. One etcd
  keyspace holds all three kinds, each under its own key prefix; it is kept as one
  association list per kind, keyed by the full key, so an object of one kind is never
  read as another (the node registry builds its keys with \<^verbatim>\<open>path.Join\<close>, which
  would move a node whose name climbs out of the node prefix; of the node registry only
  the list is needed here). \<^verbatim>\<open>Create\<close> and \<^verbatim>\<open>Update\<close> are both an
  unconditional put. A prefix read lists the entries in the order their keys were first
  written (etcd lists them in key order; nothing below depends on the order).
\<close>

type_synonym 'a kv = "(string \<times> 'a) list"

definition storage_Create :: "'a kv \<Rightarrow> string \<Rightarrow> 'a \<Rightarrow> error option \<times> 'a kv" where
  "storage_Create s key obj = (None, AList.update key obj s)"

definition storage_Get :: "'a kv \<Rightarrow> string \<Rightarrow> error + 'a" where
  "storage_Get s key = (case map_of s key of None \<Rightarrow> Inl ErrNotFound | Some obj \<Rightarrow> Inr obj)"

definition storage_Update :: "'a kv \<Rightarrow> string \<Rightarrow> 'a \<Rightarrow> error option \<times> 'a kv" where
  "storage_Update s key obj = (None, AList.update key obj s)"

definition storage_Delete :: "'a kv \<Rightarrow> string \<Rightarrow> error option \<times> 'a kv" where
  "storage_Delete s key = (None, AList.delete key s)"

definition storage_List :: "'a kv \<Rightarrow> string \<Rightarrow> error + 'a list" where
  "storage_List s pfx = Inr (map snd (filter (\<lambda>kv. prefix pfx (fst kv)) s))"

record world =
  podStore :: "Pod kv"
  replicaSetStore :: "ReplicaSet kv"
  nodeStore :: "Node kv"

section \<open>Pod registry (pkg/registry)\<close>

definition podPrefix :: string where
  "podPrefix = ''/pods/''"

definition PodRegistry_generateKey :: "string \<Rightarrow> string" where
  "PodRegistry_generateKey podName = podPrefix @ podName"

text \<open>
  \<^verbatim>\<open>CreatePod\<close> receives a pointer and writes the default status into the
  caller's pod before it validates, so the pod is returned next to the error and the
  store. Any error of the existence check, not only \<^verbatim>\<open>ErrNotFound\<close>, lets the
  create go on.
\<close>

definition CreatePod :: "Pod kv \<Rightarrow> Pod \<Rightarrow> error option \<times> Pod kv \<times> Pod" where
  "CreatePod s pod =
     (let key = PodRegistry_generateKey (Name (Meta pod)) in
      case storage_Get s key of
        Inr existingPod \<Rightarrow> (Some ErrPodAlreadyExists, s, pod)
      | Inl err \<Rightarrow>
          (let pod' = (if Status pod = [] then pod\<lparr>Status := PodPending\<rparr> else pod) in
           case Validate pod' of
             Some verr \<Rightarrow> (Some ErrPodInvalid, s, pod')
           | None \<Rightarrow> (case storage_Create s key pod' of (e, s') \<Rightarrow> (e, s', pod'))))"


definition UpdatePod :: "Pod kv \<Rightarrow> Pod \<Rightarrow> error option \<times> Pod kv" where
  "UpdatePod s pod =
     (let key = PodRegistry_generateKey (Name (Meta pod)) in
      case Validate pod of
        Some verr \<Rightarrow> (Some ErrPodInvalid, s)
      | None \<Rightarrow> storage_Update s key pod)"

definition DeletePod :: "Pod kv \<Rightarrow> string \<Rightarrow> error option \<times> Pod kv" where
  "DeletePod s name = storage_Delete s (PodRegistry_generateKey name)"

definition ListPods :: "Pod kv \<Rightarrow> error + Pod list" where
  "ListPods s =
     (case storage_List s podPrefix of
        Inl err \<Rightarrow> Inl ErrListPodsFailed
      | Inr pods \<Rightarrow> Inr pods)"

definition listPodsByStatus :: "Pod kv \<Rightarrow> PodStatus \<Rightarrow> error + Pod list" where
  "listPodsByStatus s status =
     (case ListPods s of
        Inl err \<Rightarrow> Inl ErrListPodsFailed
      | Inr pods \<Rightarrow> Inr (filter (\<lambda>pod. Status pod = status) pods))"

definition ListUnassignedPods :: "Pod kv \<Rightarrow> error + Pod list" where
  "ListUnassignedPods s = listPodsByStatus s PodPending"

definition ListPendingPods :: "Pod kv \<Rightarrow> error + Pod list" where
  "ListPendingPods s = listPodsByStatus s PodPending"

section \<open>ReplicaSet and node registries (pkg/registry)\<close>

definition replicaSetPrefix :: string where
  "replicaSetPrefix = ''/replicasets''"

definition ReplicaSetRegistry_generateKey :: "string \<Rightarrow> string" where
  "ReplicaSetRegistry_generateKey name = replicaSetPrefix @ ''/'' @ name"

definition ReplicaSetRegistry_Create ::
  "ReplicaSet kv \<Rightarrow> ReplicaSet \<Rightarrow> error option \<times> ReplicaSet kv" where
  "ReplicaSetRegistry_Create s rs =
     (let key = ReplicaSetRegistry_generateKey (Name (RSMeta rs)) in
      case storage_Get s key of
        Inr existingRS \<Rightarrow> (Some ErrReplicaSetExists, s)
      | Inl err \<Rightarrow> storage_Create s key rs)"

definition ReplicaSetRegistry_Get :: "ReplicaSet kv \<Rightarrow> string \<Rightarrow> error + ReplicaSet" where
  "ReplicaSetRegistry_Get s name =
     (case storage_Get s (ReplicaSetRegistry_generateKey name) of
        Inl err \<Rightarrow> Inl ErrReplicaSetNotFound
      | Inr rs \<Rightarrow> Inr rs)"

definition ReplicaSetRegistry_Update ::
  "ReplicaSet kv \<Rightarrow> ReplicaSet \<Rightarrow> error option \<times> ReplicaSet kv" where
  "ReplicaSetRegistry_Update s rs =
     (let key = ReplicaSetRegistry_generateKey (Name (RSMeta rs)) in
      case storage_Get s key of
        Inl err \<Rightarrow> (Some ErrReplicaSetNotFound, s)
      | Inr existingRS \<Rightarrow> storage_Update s key rs)"

definition ReplicaSetRegistry_List :: "ReplicaSet kv \<Rightarrow> error + ReplicaSet list" where
  "ReplicaSetRegistry_List s =
     (case storage_List s replicaSetPrefix of
        Inl err \<Rightarrow> Inl ErrListReplicaSets
      | Inr replicaSets \<Rightarrow> Inr replicaSets)"

definition nodePrefix :: string where
  "nodePrefix = ''/registry/nodes/''"

definition ListNodes :: "Node kv \<Rightarrow> error + Node list" where
  "ListNodes s =
     (case storage_List s nodePrefix of
        Inl err \<Rightarrow> Inl ErrListNodesFailed
      | Inr nodes \<Rightarrow> Inr nodes)"

section \<open>Pod handlers (pkg/api/handlers)\<close>

text \<open>
  The response writer is the one of \<^verbatim>\<open>net/http\<close> under go-restful: the first
  \<^verbatim>\<open>WriteHeader\<close> fixes the status code of the response, a later one changes
  nothing, and every write appends to the body. A request body is the decoded pod, or
  nothing when \<^verbatim>\<open>ReadEntity\<close> fails.
\<close>

datatype entity = PodEntity Pod | PodListEntity "Pod list" | ErrorEntity error

record response =
  wroteHeader :: bool
  statusCode :: nat
  body :: "entity list"

definition newResponse :: response where
  "newResponse = \<lparr>wroteHeader = False, statusCode = 200, body = []\<rparr>"

abbreviation StatusOK :: nat where "StatusOK \<equiv> 200"
abbreviation StatusInternalServerError :: nat where "StatusInternalServerError \<equiv> 500"

definition WriteHeader :: "response \<Rightarrow> nat \<Rightarrow> response" where
  "WriteHeader resp status =
     (if wroteHeader resp then resp else resp\<lparr>wroteHeader := True, statusCode := status\<rparr>)"

definition WriteResponse :: "response \<Rightarrow> nat \<Rightarrow> entity option \<Rightarrow> response" where
  "WriteResponse resp status ent =
     (case ent of
        Some e \<Rightarrow> (let r = WriteHeader resp status in r\<lparr>body := body r @ [e]\<rparr>)
      | None \<Rightarrow> WriteHeader resp status)"

definition WriteError :: "response \<Rightarrow> nat \<Rightarrow> error \<Rightarrow> response" where
  "WriteError resp status err =
     (let r = WriteHeader resp status in r\<lparr>body := body r @ [ErrorEntity err]\<rparr>)"


definition Handler_ListUnassignedPods :: "Pod kv \<Rightarrow> response \<Rightarrow> response" where
  "Handler_ListUnassignedPods s resp =
     (case ListUnassignedPods s of
        Inl err \<Rightarrow> WriteError resp StatusInternalServerError err
      | Inr pods \<Rightarrow> WriteResponse resp StatusOK (Some (PodListEntity pods)))"

section \<open>Name generation (pkg/registry/names)\<close>

definition maxNameLength :: nat where "maxNameLength = 63"
definition randomLength :: nat where "randomLength = 5"
definition MaxGeneratedNameLength :: nat where
  "MaxGeneratedNameLength = maxNameLength - randomLength"

definition alphanums :: string where "alphanums = ''bcdfghjklmnpqrstvwxz2456789''"
definition alphanumsIdxBits :: nat where "alphanumsIdxBits = 5"
definition alphanumsIdxMask :: "64 word" where
  "alphanumsIdxMask = push_bit alphanumsIdxBits 1 - 1"
definition maxAlphanumsPerInt :: nat where "maxAlphanumsPerInt = 63 div alphanumsIdxBits"

text \<open>
  \<^verbatim>\<open>rng.rand\<close> is a process-wide pseudo-random generator behind a mutex. Its
  stream of outputs is the parameter \<open>src\<close>, and the state is the position \<open>pos\<close> of
  the next output. \<^verbatim>\<open>Int63\<close> returns a non-negative 63-bit value in an
  \<^verbatim>\<open>int64\<close>.
\<close>

definition Int63 :: "(nat \<Rightarrow> 64 word) \<Rightarrow> nat \<Rightarrow> 64 word \<times> nat" where
  "Int63 src pos = (src pos AND mask 63, Suc pos)"

text \<open>
  The first statement of the loop body of \<^verbatim>\<open>String\<close>:
  \<^verbatim>\<open>if remaining == 0 { randomInt63, remaining = rng.rand.Int63(), maxAlphanumsPerInt }\<close>.
\<close>

definition refill :: "(nat \<Rightarrow> 64 word) \<Rightarrow> nat \<Rightarrow> 64 word \<Rightarrow> nat \<Rightarrow> 64 word \<times> nat \<times> nat" where
  "refill src pos randomInt63 remaining =
     (if remaining = 0
      then (fst (Int63 src pos), maxAlphanumsPerInt, snd (Int63 src pos))
      else (randomInt63, remaining, pos))"

text \<open>
  The loop \<^verbatim>\<open>for i := 0; i < n; { ... }\<close> of \<^verbatim>\<open>String\<close>. The byte slice
  \<open>b\<close> holds the \<open>i\<close> characters written so far, so \<open>i = length b\<close>. The loop
  has no bound on the number of rounds: it goes on for as long as the generator yields
  indices outside the alphabet, and the result is \<open>None\<close> when it never ends.
\<close>

partial_function (option) String_loop ::
  "(nat \<Rightarrow> 64 word) \<Rightarrow> nat \<Rightarrow> nat \<Rightarrow> 64 word \<Rightarrow> nat \<Rightarrow> string \<Rightarrow> (string \<times> nat) option"
where [code]:
  "String_loop src n pos randomInt63 remaining b =
     (if \<not> length b < n then Some (b, pos)
      else case refill src pos randomInt63 remaining of (r, rem, pos') \<Rightarrow>
        if unat (r AND alphanumsIdxMask) < length alphanums
        then String_loop src n pos' (signed_drop_bit alphanumsIdxBits r) (rem - 1)
               (b @ [alphanums ! unat (r AND alphanumsIdxMask)])
        else String_loop src n pos' (signed_drop_bit alphanumsIdxBits r) (rem - 1) b)"

definition String :: "(nat \<Rightarrow> 64 word) \<Rightarrow> nat \<Rightarrow> nat \<Rightarrow> (string \<times> nat) option" where
  "String src pos n =
     (case Int63 src pos of (randomInt63, pos') \<Rightarrow>
        String_loop src n pos' randomInt63 maxAlphanumsPerInt [])"

definition GenerateName :: "(nat \<Rightarrow> 64 word) \<Rightarrow> nat \<Rightarrow> string \<Rightarrow> (string \<times> nat) option" where
  "GenerateName src pos base =
     (case String src pos randomLength of
        None \<Rightarrow> None
      | Some (s, pos') \<Rightarrow>
          Some ((if length base > MaxGeneratedNameLength
                 then take MaxGeneratedNameLength base else base) @ s, pos'))"

section \<open>ReplicaSet controller (pkg/controller)\<close>

definition generatePodNameFromReplicaSet ::
  "(nat \<Rightarrow> 64 word) \<Rightarrow> nat \<Rightarrow> string \<Rightarrow> (string \<times> nat) option" where
  "generatePodNameFromReplicaSet src pos replicaSetName = GenerateName src pos replicaSetName"

definition getPodsForReplicaSet ::
  "ReplicaSet \<Rightarrow> Pod list \<Rightarrow> (Pod \<Rightarrow> ObjectMeta \<Rightarrow> bool) \<Rightarrow> Pod list" where
  "getPodsForReplicaSet rs allPods condition = filter (\<lambda>pod. condition pod (RSMeta rs)) allPods"

text \<open>
  The composite literal of \<^verbatim>\<open>Reconcile\<close>: a pod with the generated name and the
  one container, every other field at its zero value.
\<close>

definition newPod :: "string \<Rightarrow> Container \<Rightarrow> Pod" where
  "newPod name container =
     \<lparr>Meta = \<lparr>Name = name, Namespace = [], UID = [], ResourceVersion = [],
              CreationTimestamp = 0\<rparr>,
      Spec = \<lparr>Containers = [container], Replicas = 0\<rparr>,
      NodeName = [], Status = []\<rparr>"

text \<open>
  The inner loop \<^verbatim>\<open>for _, container := range currentRS.Spec.Template.Spec.Containers\<close>:
  one generated name and one \<^verbatim>\<open>CreatePod\<close> per container, returning at the first
  error.
\<close>

fun createPodsForContainers ::
  "Pod kv \<Rightarrow> (nat \<Rightarrow> 64 word) \<Rightarrow> nat \<Rightarrow> string \<Rightarrow> Container list \<Rightarrow>
   (error option \<times> Pod kv \<times> nat) option" where
  "createPodsForContainers s src pos rsName [] = Some (None, s, pos)"
| "createPodsForContainers s src pos rsName (container # containers) =
     (case generatePodNameFromReplicaSet src pos rsName of
        None \<Rightarrow> None
      | Some (name, pos') \<Rightarrow>
          (case CreatePod s (newPod name container) of
             (Some err, s', pod') \<Rightarrow> Some (Some err, s', pos')
           | (None, s', pod') \<Rightarrow> createPodsForContainers s' src pos' rsName containers))"

text \<open>The outer loop \<^verbatim>\<open>for i := currentPodCount; i < desiredPodCount; i++\<close>.\<close>

function createMissingPods ::
  "Pod kv \<Rightarrow> (nat \<Rightarrow> 64 word) \<Rightarrow> nat \<Rightarrow> string \<Rightarrow> Container list \<Rightarrow> int \<Rightarrow> int \<Rightarrow>
   (error option \<times> Pod kv \<times> nat) option" where
  "createMissingPods s src pos rsName containers i desiredPodCount =
     (if i < desiredPodCount then
        (case createPodsForContainers s src pos rsName containers of
           None \<Rightarrow> None
         | Some (Some err, s', pos') \<Rightarrow> Some (Some err, s', pos')
         | Some (None, s', pos') \<Rightarrow>
             createMissingPods s' src pos' rsName containers (i + 1) desiredPodCount)
      else Some (None, s, pos))"
  by pat_completeness auto
termination
  by (relation "measure (\<lambda>(s, src, pos, rsName, containers, i, desiredPodCount).
        nat (desiredPodCount - i))") auto

declare createMissingPods.simps [simp del]

text \<open>
  \<^verbatim>\<open>currentRS.Status.Replicas = int32(currentPodCount)\<close>, written in both branches
  after \<^verbatim>\<open>currentPodCount = desiredPodCount\<close>.
\<close>

definition setStatusReplicas :: "ReplicaSet \<Rightarrow> int \<Rightarrow> ReplicaSet" where
  "setStatusReplicas rs n = rs\<lparr>RSStatus := (RSStatus rs)\<lparr>StatusReplicas := word_of_int n\<rparr>\<rparr>"

text \<open>
  \<^verbatim>\<open>Reconcile\<close> reads the ReplicaSet again by the name of its argument and works
  on that copy. The result is \<open>None\<close> when a name generation never ends; otherwise it is
  the returned error, the world and the generator position.
\<close>

definition Reconcile ::
  "world \<Rightarrow> (nat \<Rightarrow> 64 word) \<Rightarrow> nat \<Rightarrow> ReplicaSet \<Rightarrow> (error option \<times> world \<times> nat) option" where
  "Reconcile w src pos rs =
     (case ReplicaSetRegistry_Get (replicaSetStore w) (Name (RSMeta rs)) of
        Inl err \<Rightarrow> Some (Some err, w, pos)
      | Inr currentRS \<Rightarrow>
          (case ListPods (podStore w) of
             Inl err \<Rightarrow> Some (Some err, w, pos)
           | Inr allPods \<Rightarrow>
               (let activePods = getPodsForReplicaSet currentRS allPods IsPodActiveAndOwnedBy;
                    currentPodCount = int (length activePods);
                    desiredPodCount = sint (RSReplicas (RSSpec currentRS))
                in if currentPodCount < desiredPodCount then
                     (case createMissingPods (podStore w) src pos (Name (RSMeta currentRS))
                             (Containers (TemplateSpec (Template (RSSpec currentRS))))
                             currentPodCount desiredPodCount of
                        None \<Rightarrow> None
                      | Some (Some err, ps, pos') \<Rightarrow> Some (Some err, w\<lparr>podStore := ps\<rparr>, pos')
                      | Some (None, ps, pos') \<Rightarrow>
                          (case ReplicaSetRegistry_Update (replicaSetStore w)
                                  (setStatusReplicas currentRS desiredPodCount) of
                             (e, rss) \<Rightarrow>
                               Some (e, w\<lparr>podStore := ps, replicaSetStore := rss\<rparr>, pos')))
                   else if currentPodCount > desiredPodCount then
                     (case ReplicaSetRegistry_Update (replicaSetStore w)
                             (setStatusReplicas currentRS desiredPodCount) of
                        (e, rss) \<Rightarrow> Some (e, w\<lparr>replicaSetStore := rss\<rparr>, pos))
                   else Some (None, w, pos))))"

section \<open>Scheduler (pkg/scheduler)\<close>

text \<open>
  \<^verbatim>\<open>rand.Intn(len(nodes))\<close> draws from the global generator of \<^verbatim>\<open>math/rand\<close>;
  the draws are the parameter \<open>rnd\<close>, the \<open>j\<close>-th one reduced into \<open>[0, n)\<close>.
\<close>

definition Intn :: "(nat \<Rightarrow> nat) \<Rightarrow> nat \<Rightarrow> nat \<Rightarrow> nat" where
  "Intn rnd j n = rnd j mod n"

text \<open>
  The loop \<^verbatim>\<open>for _, pod := range pods\<close> of \<^verbatim>\<open>schedulePendingPods\<close>, entered
  only with a non-empty node list.
\<close>

fun scheduleLoop ::
  "Pod kv \<Rightarrow> Node list \<Rightarrow> (nat \<Rightarrow> nat) \<Rightarrow> nat \<Rightarrow> Pod list \<Rightarrow> error option \<times> Pod kv" where
  "scheduleLoop s nodes rnd j [] = (None, s)"
| "scheduleLoop s nodes rnd j (pod # pods) =
     (let node = nodes ! Intn rnd j (length nodes);
          pod' = pod\<lparr>NodeName := Name (NodeMeta node), Status := PodScheduled\<rparr>
      in case UpdatePod s pod' of
           (Some err, s') \<Rightarrow> (Some ErrSchedulerUpdatePod, s')
         | (None, s') \<Rightarrow> scheduleLoop s' nodes rnd (Suc j) pods)"

definition schedulePendingPods :: "world \<Rightarrow> (nat \<Rightarrow> nat) \<Rightarrow> error option \<times> world" where
  "schedulePendingPods w rnd =
     (case ListPendingPods (podStore w) of
        Inl err \<Rightarrow> (Some ErrSchedulerListPods, w)
      | Inr pods \<Rightarrow>
          (case ListNodes (nodeStore w) of
             Inl err \<Rightarrow> (Some ErrSchedulerListNodes, w)
           | Inr nodes \<Rightarrow>
               if length nodes = 0 then (Some ErrNoNodesAvailable, w)
               else (case scheduleLoop (podStore w) nodes rnd 0 pods of
                       (e, s') \<Rightarrow> (e, w\<lparr>podStore := s'\<rparr>))))"


section \<open>Node agent: container states to pod status (pkg/kubelet)\<close>

text \<open>
  \<^verbatim>\<open>containerState{exists, running, exitCode}\<close>. The exit code is a Go
  \<^verbatim>\<open>int\<close> that is only ever compared with 0.
\<close>

record containerState =
  exists :: bool
  running :: bool
  exitCode :: int

text \<open>Each predicate is a loop over the states with an early return.\<close>

fun allContainersSucceeded :: "containerState list \<Rightarrow> bool" where
  "allContainersSucceeded [] = True"
| "allContainersSucceeded (state # states) =
     (if exitCode state \<noteq> 0 then False else allContainersSucceeded states)"

fun anyContainerRunning :: "containerState list \<Rightarrow> bool" where
  "anyContainerRunning [] = False"
| "anyContainerRunning (state # states) =
     (if running state then True else anyContainerRunning states)"

fun allContainersFailed :: "containerState list \<Rightarrow> bool" where
  "allContainersFailed [] = True"
| "allContainersFailed (state # states) =
     (if exists state \<and> exitCode state = 0 then False else allContainersFailed states)"

fun anyContainerExists :: "containerState list \<Rightarrow> bool" where
  "anyContainerExists [] = False"
| "anyContainerExists (state # states) =
     (if exists state then True else anyContainerExists states)"

definition determinePodStatus :: "containerState list \<Rightarrow> PodStatus" where
  "determinePodStatus states =
     (if anyContainerRunning states then PodRunning
      else if allContainersFailed states \<and> anyContainerExists states then PodFailed
      else if allContainersSucceeded states then PodSucceeded
      else PodScheduled)"

section \<open>Observations and test fixtures\<close>

text \<open>
  The number of active pods owned by a ReplicaSet, as \<^verbatim>\<open>Reconcile\<close> counts it:
  \<^verbatim>\<open>len(activePods)\<close> over the pods that \<^verbatim>\<open>ListPods\<close> returns.
\<close>

definition activePodCount :: "world \<Rightarrow> ReplicaSet \<Rightarrow> int" where
  "activePodCount w rs =
     (case ListPods (podStore w) of
        Inl err \<Rightarrow> 0
      | Inr allPods \<Rightarrow> int (length (getPodsForReplicaSet rs allPods IsPodActiveAndOwnedBy)))"

definition listedPods :: "world \<Rightarrow> Pod list" where
  "listedPods w = (case ListPods (podStore w) of Inl err \<Rightarrow> [] | Inr allPods \<Rightarrow> allPods)"

text \<open>
  The pod of the handler tests: one \<^verbatim>\<open>nginx\<close> container, \<^verbatim>\<open>Replicas: 1\<close>,
  with the given name, node name and status.
\<close>

definition testPod :: "string \<Rightarrow> string \<Rightarrow> PodStatus \<Rightarrow> Pod" where
  "testPod name node status =
     \<lparr>Meta = \<lparr>Name = name, Namespace = [], UID = [], ResourceVersion = [],
              CreationTimestamp = 0\<rparr>,
      Spec = \<lparr>Containers = [\<lparr>ContainerName = ''nginx'', Image = ''nginx:latest''\<rparr>],
              Replicas = 1\<rparr>,
      NodeName = node, Status = status\<rparr>"

text \<open>
  The ReplicaSet of the controller test: a name, a replica count and the containers of
  the template; and a world holding the given ReplicaSets, pods and nodes, each under
  the key its registry gives it.
\<close>

definition testMeta :: "string \<Rightarrow> ObjectMeta" where
  "testMeta name =
     \<lparr>Name = name, Namespace = [], UID = [], ResourceVersion = [], CreationTimestamp = 0\<rparr>"

definition testReplicaSet :: "string \<Rightarrow> 32 word \<Rightarrow> Container list \<Rightarrow> ReplicaSet" where
  "testReplicaSet name replicas containers =
     \<lparr>RSMeta = testMeta name,
      RSSpec = \<lparr>RSReplicas = replicas, Selector = [],
                Template = \<lparr>TemplateMeta = testMeta [],
                            TemplateSpec = \<lparr>Containers = containers, Replicas = 0\<rparr>\<rparr>\<rparr>,
      RSStatus = \<lparr>StatusReplicas = 0, FullyLabeledReplicas = 0, ReadyReplicas = 0,
                  AvailableReplicas = 0\<rparr>\<rparr>"


definition testWorld :: "ReplicaSet list \<Rightarrow> Pod list \<Rightarrow> Node list \<Rightarrow> world" where
  "testWorld rss pods nodes =
     \<lparr>podStore = map (\<lambda>pod. (PodRegistry_generateKey (Name (Meta pod)), pod)) pods,
      replicaSetStore =
        map (\<lambda>rs. (ReplicaSetRegistry_generateKey (Name (RSMeta rs)), rs)) rss,
      nodeStore = map (\<lambda>node. (nodePrefix @ Name (NodeMeta node), node)) nodes\<rparr>"





section \<open>Stores the registry can produce, and the pod invariant\<close>

text \<open>
  Both writes of the pod registry compute the key from the name of the pod they store and
  validate it first, and the store is a map. So in every store that the registry has
  produced each entry sits under the key of its own name and has passed validation, and
  no key occurs twice.
\<close>

definition podStore_wf :: "Pod kv \<Rightarrow> bool" where
  "podStore_wf s =
     (distinct (map fst s) \<and>
      list_all (\<lambda>kv. fst kv = PodRegistry_generateKey (Name (Meta (snd kv))) \<and>
                     Validate (snd kv) = None) s)"




section \<open>Status derivation\<close>

lemma allContainersSucceeded_iff:
  "allContainersSucceeded states \<longleftrightarrow> (\<forall>s \<in> set states. exitCode s = 0)"
  by (induction states) auto

lemma anyContainerRunning_iff:
  "anyContainerRunning states \<longleftrightarrow> (\<exists>s \<in> set states. running s)"
  by (induction states) auto

lemma allContainersFailed_iff:
  "allContainersFailed states \<longleftrightarrow> (\<forall>s \<in> set states. exists s \<longrightarrow> exitCode s \<noteq> 0)"
  by (induction states) auto

lemma anyContainerExists_iff:
  "anyContainerExists states \<longleftrightarrow> (\<exists>s \<in> set states. exists s)"
  by (induction states) auto

text \<open>
  C1. For every list of container states, \<open>determinePodStatus\<close> follows the table:
  Running if some container is running; otherwise Failed if at least one container
  exists and every existing container has a non-zero exit code; otherwise Succeeded if
  every container has exit code 0; otherwise Scheduled. The empty list yields Succeeded.
\<close>

theorem determinePodStatus_table:
  "determinePodStatus states =
     (if (\<exists>s \<in> set states. running s) then PodRunning
      else if (\<exists>s \<in> set states. exists s) \<and>
              (\<forall>s \<in> set states. exists s \<longrightarrow> exitCode s \<noteq> 0) then PodFailed
      else if (\<forall>s \<in> set states. exitCode s = 0) then PodSucceeded
      else PodScheduled)
   \<and> determinePodStatus [] = PodSucceeded"
  unfolding determinePodStatus_def allContainersSucceeded_iff anyContainerRunning_iff
    allContainersFailed_iff anyContainerExists_iff
  by auto

text \<open>
  The table at the inputs of scenario S6, and at a mixed input that reaches the last row:
  two stopped containers, one that exited with 0 and one that exited with 1.
\<close>

theorem determinePodStatus_table_witness:
  "determinePodStatus [\<lparr>exists = True, running = True, exitCode = 0\<rparr>] = PodRunning
   \<and> determinePodStatus [\<lparr>exists = True, running = False, exitCode = 0\<rparr>,
        \<lparr>exists = True, running = False, exitCode = 0\<rparr>] = PodSucceeded
   \<and> determinePodStatus [\<lparr>exists = True, running = False, exitCode = 1\<rparr>] = PodFailed
   \<and> determinePodStatus [\<lparr>exists = True, running = False, exitCode = 0\<rparr>,
        \<lparr>exists = True, running = False, exitCode = 1\<rparr>] = PodScheduled"
proof -
  have a: "determinePodStatus [\<lparr>exists = True, running = True, exitCode = 0\<rparr>] = PodRunning"
    using determinePodStatus_table
      [of "[\<lparr>exists = True, running = True, exitCode = 0\<rparr>]"]
    by simp
  have b: "determinePodStatus [\<lparr>exists = True, running = False, exitCode = 0\<rparr>,
        \<lparr>exists = True, running = False, exitCode = 0\<rparr>] = PodSucceeded"
    using determinePodStatus_table
      [of "[\<lparr>exists = True, running = False, exitCode = 0\<rparr>,
            \<lparr>exists = True, running = False, exitCode = 0\<rparr>]"]
    by simp
  have c: "determinePodStatus [\<lparr>exists = True, running = False, exitCode = 1\<rparr>] = PodFailed"
    using determinePodStatus_table
      [of "[\<lparr>exists = True, running = False, exitCode = 1\<rparr>]"]
    by simp
  have d: "determinePodStatus [\<lparr>exists = True, running = False, exitCode = 0\<rparr>,
        \<lparr>exists = True, running = False, exitCode = 1\<rparr>] = PodScheduled"
    using determinePodStatus_table
      [of "[\<lparr>exists = True, running = False, exitCode = 0\<rparr>,
            \<lparr>exists = True, running = False, exitCode = 1\<rparr>]"]
    by simp
  from a b c d show ?thesis by blast
qed

section \<open>Name generation\<close>

text \<open>Whatever \<open>String_loop\<close> returns has the requested length and only alphabet characters.\<close>

lemma String_loop_shape:
  assumes "String_loop src n pos r rem b = Some y"
  shows "length b \<le> n \<longrightarrow> set b \<subseteq> set alphanums \<longrightarrow>
         length (fst y) = n \<and> set (fst y) \<subseteq> set alphanums"
proof (rule String_loop.raw_induct
    [where P = "\<lambda>src n pos r rem b y. length b \<le> n \<longrightarrow> set b \<subseteq> set alphanums \<longrightarrow>
         length (fst y) = n \<and> set (fst y) \<subseteq> set alphanums", OF _ assms])
  fix f :: "(nat \<Rightarrow> 64 word) \<Rightarrow> nat \<Rightarrow> nat \<Rightarrow> 64 word \<Rightarrow> nat \<Rightarrow> string \<Rightarrow> (string \<times> nat) option"
  fix src n pos r rem b y
  assume IH: "\<And>src n pos r rem b y. f src n pos r rem b = Some y \<Longrightarrow>
      length b \<le> n \<longrightarrow> set b \<subseteq> set alphanums \<longrightarrow>
      length (fst y) = n \<and> set (fst y) \<subseteq> set alphanums"
  assume body: "(if \<not> length b < n then Some (b, pos)
      else case refill src pos r rem of (r, rem, pos') \<Rightarrow>
        if unat (r AND alphanumsIdxMask) < length alphanums
        then f src n pos' (signed_drop_bit alphanumsIdxBits r) (rem - 1)
               (b @ [alphanums ! unat (r AND alphanumsIdxMask)])
        else f src n pos' (signed_drop_bit alphanumsIdxBits r) (rem - 1) b) = Some y"
  show "length b \<le> n \<longrightarrow> set b \<subseteq> set alphanums \<longrightarrow>
      length (fst y) = n \<and> set (fst y) \<subseteq> set alphanums"
  proof (intro impI)
    assume len: "length b \<le> n" and sub: "set b \<subseteq> set alphanums"
    show "length (fst y) = n \<and> set (fst y) \<subseteq> set alphanums"
    proof (cases "length b < n")
      case False
      with body len sub show ?thesis by auto
    next
      case True
      obtain r' rem' pos' where rf: "refill src pos r rem = (r', rem', pos')"
        by (cases "refill src pos r rem") auto
      show ?thesis
      proof (cases "unat (r' AND alphanumsIdxMask) < length alphanums")
        case valid: True
        with body True rf have
          "f src n pos' (signed_drop_bit alphanumsIdxBits r') (rem' - 1)
             (b @ [alphanums ! unat (r' AND alphanumsIdxMask)]) = Some y"
          by simp
        from IH [OF this] True sub valid show ?thesis by simp
      next
        case invalid: False
        with body True rf have
          "f src n pos' (signed_drop_bit alphanumsIdxBits r') (rem' - 1) b = Some y"
          by simp
        from IH [OF this] len sub show ?thesis by simp
      qed
    qed
  qed
qed

lemma String_shape:
  assumes "String src pos n = Some (s, pos')"
  shows "length s = n \<and> set s \<subseteq> set alphanums"
  using assms String_loop_shape [of src n _ _ maxAlphanumsPerInt "[]" "(s, pos')"]
  by (auto simp: String_def split: prod.splits)

text \<open>
  The loop ends whenever every output of the generator has an in-range index in its
  lowest five bits: each refill then yields a character at once. The induction is on the
  number of characters still missing, and inside it on the indices left in the current
  output.
\<close>

lemma String_loop_returns:
  assumes good: "\<forall>k. unat (fst (Int63 src k) AND alphanumsIdxMask) < length alphanums"
  shows "\<exists>y. String_loop src n pos r rem b = Some y"
proof (induction k \<equiv> "n - length b" arbitrary: b pos r rem)
  case 0
  then show ?case by (simp add: String_loop.simps)
next
  case (Suc k)
  then have lt: "length b < n" by simp
  have outer: "\<exists>y. String_loop src n pos' r' rem' (b @ [c]) = Some y" for pos' r' rem' c
    using Suc.hyps(1) [of "b @ [c]"] Suc.hyps(2) by simp
  show ?case
  proof (induction rem arbitrary: pos r)
    case 0
    show ?case
      using lt good outer
      by (subst String_loop.simps) (simp add: refill_def)
  next
    case (Suc m)
    show ?case
      using lt outer Suc.IH
      by (subst String_loop.simps) (simp add: refill_def)
  qed
qed

lemma String_returns:
  assumes "\<forall>k. unat (fst (Int63 src k) AND alphanumsIdxMask) < length alphanums"
  shows "\<exists>y. String src pos n = Some y"
  using String_loop_returns [OF assms]
  by (simp add: String_def split: prod.splits)

lemma GenerateName_shape:
  assumes "GenerateName src pos base = Some (name, pos')"
  shows "\<exists>sfx. name = take 58 base @ sfx \<and> length sfx = 5 \<and> set sfx \<subseteq> set alphanums"
proof -
  from assms obtain s where s: "String src pos randomLength = Some (s, pos')"
    and n: "name = (if length base > MaxGeneratedNameLength
                    then take MaxGeneratedNameLength base else base) @ s"
    by (auto simp: GenerateName_def split: option.splits)
  have sh: "length s = 5" "set s \<subseteq> set alphanums"
    using String_shape [OF s] by (simp_all add: randomLength_def)
  have t: "(if length base > MaxGeneratedNameLength
            then take MaxGeneratedNameLength base else base) = take 58 base"
    by (simp add: MaxGeneratedNameLength_def maxNameLength_def randomLength_def)
  from n sh t show ?thesis by auto
qed

text \<open>
  C6. For every base string, a name returned by \<open>GenerateName\<close> has length at most 63
  and is the base, cut to its first 58 characters, followed by a suffix of exactly five
  characters of the alphabet \<open>bcdfghjklmnpqrstvwxz2456789\<close>. A name is returned
  whenever the generator's outputs carry an in-range index in their lowest five bits.
\<close>

theorem GenerateName_valid:
  "(GenerateName src pos base = Some (name, pos') \<longrightarrow>
      length name \<le> 63 \<and> length (take 58 base) \<le> 58 \<and>
      (\<exists>sfx. name = take 58 base @ sfx \<and> length sfx = 5 \<and>
             set sfx \<subseteq> set ''bcdfghjklmnpqrstvwxz2456789''))
   \<and> ((\<forall>k. unat (fst (Int63 src k) AND alphanumsIdxMask) < length alphanums) \<longrightarrow>
        (\<exists>name pos'. GenerateName src pos base = Some (name, pos')))"
proof (intro conjI impI)
  assume g: "GenerateName src pos base = Some (name, pos')"
  from GenerateName_shape [OF g] obtain sfx where
    sfx: "name = take 58 base @ sfx" "length sfx = 5" "set sfx \<subseteq> set alphanums"
    by blast
  show "length name \<le> 63" using sfx by simp
  show "length (take 58 base) \<le> 58" by simp
  show "\<exists>sfx. name = take 58 base @ sfx \<and> length sfx = 5 \<and>
             set sfx \<subseteq> set ''bcdfghjklmnpqrstvwxz2456789''"
    using sfx unfolding alphanums_def by blast
next
  assume "\<forall>k. unat (fst (Int63 src k) AND alphanumsIdxMask) < length alphanums"
  from String_returns [OF this, of pos randomLength]
  show "\<exists>name pos'. GenerateName src pos base = Some (name, pos')"
    by (auto simp: GenerateName_def)
qed

text \<open>
  The generator that counts 0, 1, 2, ... gives \<open>foocbbbb\<close> at position 1; the constant
  generator 0 satisfies the condition for a name to be returned.
\<close>

theorem GenerateName_valid_witness:
  "GenerateName (\<lambda>k. of_nat k) 1 ''foo'' = Some (''foocbbbb'', 2)
   \<and> length ''foocbbbb'' \<le> (63::nat)
   \<and> (\<exists>sfx. ''foocbbbb'' = take 58 ''foo'' @ sfx \<and> length sfx = 5 \<and>
             set sfx \<subseteq> set ''bcdfghjklmnpqrstvwxz2456789'')
   \<and> (\<forall>k. unat (fst (Int63 (\<lambda>k. 0) k) AND alphanumsIdxMask) < length alphanums)
   \<and> (\<exists>name pos'. GenerateName (\<lambda>k. 0) 0 ''foo'' = Some (name, pos'))"
proof -
  have g: "GenerateName (\<lambda>k. of_nat k) 1 ''foo'' = Some (''foocbbbb'', 2)"
    by code_simp
  have good: "\<forall>k. unat (fst (Int63 (\<lambda>k. 0) k) AND alphanumsIdxMask) < length alphanums"
    by (simp add: Int63_def alphanums_def)
  note shape = GenerateName_valid [of "\<lambda>k. of_nat k" 1 "''foo''" "''foocbbbb''" 2,
      THEN conjunct1, THEN mp, OF g]
  note ret = GenerateName_valid [of "\<lambda>k. 0" 0 "''foo''" "''foo''" 0,
      THEN conjunct2, THEN mp, OF good]
  from g good shape ret show ?thesis by blast
qed

section \<open>Pod registry: filtered lists and creation\<close>

lemma ListPods_Inr:
  "ListPods s = Inr (map snd (filter (\<lambda>kv. prefix podPrefix (fst kv)) s))"
  by (simp add: ListPods_def storage_List_def)

lemma listPodsByStatus_Inr:
  "listPodsByStatus s status =
     Inr (filter (\<lambda>pod. Status pod = status)
            (map snd (filter (\<lambda>kv. prefix podPrefix (fst kv)) s)))"
  by (simp add: listPodsByStatus_def ListPods_Inr)

text \<open>
  C10. \<open>ListUnassignedPods\<close> and \<open>ListPendingPods\<close> return the same list on every
  store: the pods that \<open>ListPods\<close> returns whose status is Pending. The handler of
  \<^verbatim>\<open>GET /pods/unassigned\<close> answers 200 with that list. So the selection is by status
  and not by node name: a listed pod with another status is left out even when its node
  name is empty, and a listed pod with status Pending is returned whatever its node name.
\<close>

theorem ListUnassignedPods_is_ListPendingPods:
  "ListUnassignedPods s = ListPendingPods s
   \<and> (\<forall>allPods. ListPods s = Inr allPods \<longrightarrow>
         ListUnassignedPods s = Inr (filter (\<lambda>pod. Status pod = PodPending) allPods)
         \<and> Handler_ListUnassignedPods s newResponse =
             \<lparr>wroteHeader = True, statusCode = StatusOK,
              body = [PodListEntity (filter (\<lambda>pod. Status pod = PodPending) allPods)]\<rparr>)
   \<and> (\<forall>allPods pods pod. ListPods s = Inr allPods \<and> ListUnassignedPods s = Inr pods \<and>
         pod \<in> set allPods \<longrightarrow>
         (Status pod \<noteq> PodPending \<and> NodeName pod = [] \<longrightarrow> pod \<notin> set pods) \<and>
         (Status pod = PodPending \<longrightarrow> pod \<in> set pods))"
  by (auto simp: ListUnassignedPods_def ListPendingPods_def listPodsByStatus_Inr ListPods_Inr
      Handler_ListUnassignedPods_def WriteResponse_def WriteHeader_def newResponse_def Let_def)

text \<open>
  Three stored pods: \<open>a\<close> is Pending although bound to \<open>n1\<close>, \<open>b\<close> is Scheduled with
  an empty node name, \<open>c\<close> is Pending and unbound. Both lists are \<open>a\<close> and \<open>c\<close>.
\<close>

theorem ListUnassignedPods_is_ListPendingPods_witness:
  "ListPods [(''/pods/a'', testPod ''a'' ''n1'' PodPending),
             (''/pods/b'', testPod ''b'' [] PodScheduled),
             (''/pods/c'', testPod ''c'' [] PodPending)]
     = Inr [testPod ''a'' ''n1'' PodPending, testPod ''b'' [] PodScheduled,
            testPod ''c'' [] PodPending]
   \<and> ListUnassignedPods [(''/pods/a'', testPod ''a'' ''n1'' PodPending),
             (''/pods/b'', testPod ''b'' [] PodScheduled),
             (''/pods/c'', testPod ''c'' [] PodPending)]
     = Inr [testPod ''a'' ''n1'' PodPending, testPod ''c'' [] PodPending]
   \<and> ListPendingPods [(''/pods/a'', testPod ''a'' ''n1'' PodPending),
             (''/pods/b'', testPod ''b'' [] PodScheduled),
             (''/pods/c'', testPod ''c'' [] PodPending)]
     = Inr [testPod ''a'' ''n1'' PodPending, testPod ''c'' [] PodPending]"
proof -
  let ?s = "[(''/pods/a'', testPod ''a'' ''n1'' PodPending),
             (''/pods/b'', testPod ''b'' [] PodScheduled),
             (''/pods/c'', testPod ''c'' [] PodPending)]"
  have l: "ListPods ?s = Inr [testPod ''a'' ''n1'' PodPending, testPod ''b'' [] PodScheduled,
            testPod ''c'' [] PodPending]"
    by (simp add: ListPods_Inr podPrefix_def)
  note t = ListUnassignedPods_is_ListPendingPods [of ?s]
  from t have eq: "ListUnassignedPods ?s = ListPendingPods ?s" by (rule conjunct1)
  from t l have u: "ListUnassignedPods ?s =
      Inr (filter (\<lambda>pod. Status pod = PodPending)
        [testPod ''a'' ''n1'' PodPending, testPod ''b'' [] PodScheduled,
         testPod ''c'' [] PodPending])"
    by blast
  have f: "filter (\<lambda>pod. Status pod = PodPending)
        [testPod ''a'' ''n1'' PodPending, testPod ''b'' [] PodScheduled,
         testPod ''c'' [] PodPending]
      = [testPod ''a'' ''n1'' PodPending, testPod ''c'' [] PodPending]"
    by (simp add: testPod_def)
  from l u f eq show ?thesis by simp
qed

text \<open>Validation reads neither the status nor the node name of a pod.\<close>

lemma Validate_Status [simp]: "Validate (pod\<lparr>Status := st\<rparr>) = Validate pod"
  by (simp add: Validate_def)

lemma Validate_NodeName [simp]: "Validate (pod\<lparr>NodeName := n\<rparr>) = Validate pod"
  by (simp add: Validate_def)

lemma CreatePod_exists:
  assumes "map_of s (PodRegistry_generateKey (Name (Meta pod))) = Some existingPod"
  shows "CreatePod s pod = (Some ErrPodAlreadyExists, s, pod)"
  using assms by (simp add: CreatePod_def storage_Get_def)

lemma CreatePod_invalid:
  assumes "map_of s (PodRegistry_generateKey (Name (Meta pod))) = None"
      and "Validate pod \<noteq> None"
  shows "CreatePod s pod =
           (Some ErrPodInvalid, s, if Status pod = [] then pod\<lparr>Status := PodPending\<rparr> else pod)"
  using assms by (auto simp: CreatePod_def storage_Get_def Let_def)

lemma CreatePod_fresh:
  assumes "map_of s (PodRegistry_generateKey (Name (Meta pod))) = None"
      and "Validate pod = None"
  shows "CreatePod s pod =
           (None,
            AList.update (PodRegistry_generateKey (Name (Meta pod)))
              (if Status pod = [] then pod\<lparr>Status := PodPending\<rparr> else pod) s,
            if Status pod = [] then pod\<lparr>Status := PodPending\<rparr> else pod)"
  using assms by (simp add: CreatePod_def storage_Get_def storage_Create_def Let_def)





section \<open>ReplicaSet controller: the branches that create nothing\<close>

lemma ListPods_listedPods: "ListPods (podStore w) = Inr (listedPods w)"
  by (simp add: listedPods_def ListPods_Inr)

lemma activePodCount_eq:
  "activePodCount w rs =
     int (length (getPodsForReplicaSet rs (listedPods w) IsPodActiveAndOwnedBy))"
  by (simp add: activePodCount_def ListPods_listedPods)

lemma sint_32_roundtrip: "word_of_int (sint (x :: 32 word)) = x"
  by simp

text \<open>
  C3. For every world whose registry holds a ReplicaSet under the name of \<open>rs\<close>, with
  as many active owned pods as its \<open>spec.replicas\<close>, \<open>Reconcile\<close> returns without
  error and leaves the world as it was: no pod is created, no ReplicaSet is updated, and
  the list of pods, so also their number, is the same.
\<close>

theorem Reconcile_equal_no_writes:
  assumes "ReplicaSetRegistry_Get (replicaSetStore w) (Name (RSMeta rs)) = Inr currentRS"
      and "activePodCount w currentRS = sint (RSReplicas (RSSpec currentRS))"
  shows "Reconcile w src pos rs = Some (None, w, pos)"
  using assms
  by (simp add: Reconcile_def activePodCount_eq ListPods_listedPods Let_def)

text \<open>
  C9. For every world whose registry holds a ReplicaSet under the name of \<open>rs\<close>
  (stored, as the registry stores it, under its own name) with more active owned pods
  than its \<open>spec.replicas\<close>, \<open>Reconcile\<close> returns without error; the pod store is
  untouched, and the only change of the world is the put of that ReplicaSet with
  \<open>status.replicas\<close> set to \<open>spec.replicas\<close>.
\<close>

theorem Reconcile_surplus_only_status:
  assumes get: "ReplicaSetRegistry_Get (replicaSetStore w) (Name (RSMeta rs)) = Inr currentRS"
      and name: "Name (RSMeta currentRS) = Name (RSMeta rs)"
      and more: "activePodCount w currentRS > sint (RSReplicas (RSSpec currentRS))"
  shows "\<exists>w'. Reconcile w src pos rs = Some (None, w', pos)
           \<and> podStore w' = podStore w
           \<and> nodeStore w' = nodeStore w
           \<and> listedPods w' = listedPods w
           \<and> replicaSetStore w' =
               AList.update (ReplicaSetRegistry_generateKey (Name (RSMeta rs)))
                 (currentRS\<lparr>RSStatus := (RSStatus currentRS)
                     \<lparr>StatusReplicas := RSReplicas (RSSpec currentRS)\<rparr>\<rparr>)
                 (replicaSetStore w)
           \<and> ReplicaSetRegistry_Get (replicaSetStore w') (Name (RSMeta rs)) =
               Inr (currentRS\<lparr>RSStatus := (RSStatus currentRS)
                     \<lparr>StatusReplicas := RSReplicas (RSSpec currentRS)\<rparr>\<rparr>)"
proof -
  let ?key = "ReplicaSetRegistry_generateKey (Name (RSMeta rs))"
  let ?rs' = "currentRS\<lparr>RSStatus := (RSStatus currentRS)
                     \<lparr>StatusReplicas := RSReplicas (RSSpec currentRS)\<rparr>\<rparr>"
  let ?w' = "w\<lparr>replicaSetStore := AList.update ?key ?rs' (replicaSetStore w)\<rparr>"
  from get have stored: "map_of (replicaSetStore w) ?key = Some currentRS"
    by (auto simp: ReplicaSetRegistry_Get_def storage_Get_def split: option.splits)
  have set: "setStatusReplicas currentRS (sint (RSReplicas (RSSpec currentRS))) = ?rs'"
    by (simp add: setStatusReplicas_def)
  have upd: "ReplicaSetRegistry_Update (replicaSetStore w) ?rs' =
      (None, AList.update ?key ?rs' (replicaSetStore w))"
    using stored name
    by (simp add: ReplicaSetRegistry_Update_def storage_Get_def storage_Update_def Let_def)
  have r: "Reconcile w src pos rs = Some (None, ?w', pos)"
    using get more
    by (simp add: Reconcile_def activePodCount_eq ListPods_listedPods Let_def set upd)
  have g: "ReplicaSetRegistry_Get (replicaSetStore ?w') (Name (RSMeta rs)) = Inr ?rs'"
    by (simp add: ReplicaSetRegistry_Get_def storage_Get_def update_conv')
  from r g show ?thesis
    by (intro exI [of _ ?w']) (simp add: listedPods_def)
qed
text \<open>
  The second case of the controller test: \<open>test-rs-2\<close> wants two replicas and owns two
  pending pods.
\<close>

theorem Reconcile_equal_no_writes_witness:
  "ReplicaSetRegistry_Get
       (replicaSetStore (testWorld
          [testReplicaSet ''test-rs-2'' 2 [\<lparr>ContainerName = ''test-container'', Image = ''nginx''\<rparr>]]
          [testPod ''test-rs-2-a'' [] PodPending, testPod ''test-rs-2-b'' [] PodPending] []))
       (Name (RSMeta (testReplicaSet ''test-rs-2'' 2
          [\<lparr>ContainerName = ''test-container'', Image = ''nginx''\<rparr>])))
     = Inr (testReplicaSet ''test-rs-2'' 2 [\<lparr>ContainerName = ''test-container'', Image = ''nginx''\<rparr>])
   \<and> activePodCount (testWorld
          [testReplicaSet ''test-rs-2'' 2 [\<lparr>ContainerName = ''test-container'', Image = ''nginx''\<rparr>]]
          [testPod ''test-rs-2-a'' [] PodPending, testPod ''test-rs-2-b'' [] PodPending] [])
        (testReplicaSet ''test-rs-2'' 2 [\<lparr>ContainerName = ''test-container'', Image = ''nginx''\<rparr>])
     = 2
   \<and> Reconcile (testWorld
          [testReplicaSet ''test-rs-2'' 2 [\<lparr>ContainerName = ''test-container'', Image = ''nginx''\<rparr>]]
          [testPod ''test-rs-2-a'' [] PodPending, testPod ''test-rs-2-b'' [] PodPending] [])
        (\<lambda>k. 0) 0
        (testReplicaSet ''test-rs-2'' 2 [\<lparr>ContainerName = ''test-container'', Image = ''nginx''\<rparr>])
     = Some (None, testWorld
          [testReplicaSet ''test-rs-2'' 2 [\<lparr>ContainerName = ''test-container'', Image = ''nginx''\<rparr>]]
          [testPod ''test-rs-2-a'' [] PodPending, testPod ''test-rs-2-b'' [] PodPending] [], 0)"
proof -
  let ?rs = "testReplicaSet ''test-rs-2'' 2 [\<lparr>ContainerName = ''test-container'', Image = ''nginx''\<rparr>]"
  let ?w = "testWorld [?rs]
      [testPod ''test-rs-2-a'' [] PodPending, testPod ''test-rs-2-b'' [] PodPending] []"
  have g: "ReplicaSetRegistry_Get (replicaSetStore ?w) (Name (RSMeta ?rs)) = Inr ?rs"
    by (simp add: ReplicaSetRegistry_Get_def storage_Get_def testWorld_def)
  have c: "activePodCount ?w ?rs = 2"
    by (simp add: activePodCount_def ListPods_Inr getPodsForReplicaSet_def
        IsPodActiveAndOwnedBy_def IsOwnedBy_def IsActive_def testWorld_def testPod_def
        testReplicaSet_def testMeta_def PodRegistry_generateKey_def podPrefix_def)
  have d: "sint (RSReplicas (RSSpec ?rs)) = 2"
    by (simp add: testReplicaSet_def)
  from c d have e: "activePodCount ?w ?rs = sint (RSReplicas (RSSpec ?rs))" by simp
  from g c Reconcile_equal_no_writes [OF g e] show ?thesis by simp
qed

text \<open>
  \<open>test-rs-2\<close> wants one replica and owns two pending pods: the pods stay, and the
  stored ReplicaSet gets \<open>status.replicas = 1\<close>.
\<close>

theorem Reconcile_surplus_only_status_witness:
  "ReplicaSetRegistry_Get
       (replicaSetStore (testWorld
          [testReplicaSet ''test-rs-2'' 1 [\<lparr>ContainerName = ''test-container'', Image = ''nginx''\<rparr>]]
          [testPod ''test-rs-2-a'' [] PodPending, testPod ''test-rs-2-b'' [] PodPending] []))
       (Name (RSMeta (testReplicaSet ''test-rs-2'' 1
          [\<lparr>ContainerName = ''test-container'', Image = ''nginx''\<rparr>])))
     = Inr (testReplicaSet ''test-rs-2'' 1 [\<lparr>ContainerName = ''test-container'', Image = ''nginx''\<rparr>])
   \<and> activePodCount (testWorld
          [testReplicaSet ''test-rs-2'' 1 [\<lparr>ContainerName = ''test-container'', Image = ''nginx''\<rparr>]]
          [testPod ''test-rs-2-a'' [] PodPending, testPod ''test-rs-2-b'' [] PodPending] [])
        (testReplicaSet ''test-rs-2'' 1 [\<lparr>ContainerName = ''test-container'', Image = ''nginx''\<rparr>])
     = 2
   \<and> (\<exists>w'. Reconcile (testWorld
          [testReplicaSet ''test-rs-2'' 1 [\<lparr>ContainerName = ''test-container'', Image = ''nginx''\<rparr>]]
          [testPod ''test-rs-2-a'' [] PodPending, testPod ''test-rs-2-b'' [] PodPending] [])
        (\<lambda>k. 0) 0
        (testReplicaSet ''test-rs-2'' 1 [\<lparr>ContainerName = ''test-container'', Image = ''nginx''\<rparr>])
       = Some (None, w', 0)
     \<and> listedPods w' = [testPod ''test-rs-2-a'' [] PodPending, testPod ''test-rs-2-b'' [] PodPending]
     \<and> ReplicaSetRegistry_Get (replicaSetStore w') ''test-rs-2'' =
         Inr ((testReplicaSet ''test-rs-2'' 1
                [\<lparr>ContainerName = ''test-container'', Image = ''nginx''\<rparr>])
              \<lparr>RSStatus := \<lparr>StatusReplicas = 1, FullyLabeledReplicas = 0, ReadyReplicas = 0,
                  AvailableReplicas = 0\<rparr>\<rparr>))"
proof -
  let ?rs = "testReplicaSet ''test-rs-2'' 1 [\<lparr>ContainerName = ''test-container'', Image = ''nginx''\<rparr>]"
  let ?w = "testWorld [?rs]
      [testPod ''test-rs-2-a'' [] PodPending, testPod ''test-rs-2-b'' [] PodPending] []"
  have g: "ReplicaSetRegistry_Get (replicaSetStore ?w) (Name (RSMeta ?rs)) = Inr ?rs"
    by (simp add: ReplicaSetRegistry_Get_def storage_Get_def testWorld_def)
  have c: "activePodCount ?w ?rs = 2"
    by (simp add: activePodCount_def ListPods_Inr getPodsForReplicaSet_def
        IsPodActiveAndOwnedBy_def IsOwnedBy_def IsActive_def testWorld_def testPod_def
        testReplicaSet_def testMeta_def PodRegistry_generateKey_def podPrefix_def)
  have d: "sint (RSReplicas (RSSpec ?rs)) = 1"
    by (simp add: testReplicaSet_def)
  from c d have m: "activePodCount ?w ?rs > sint (RSReplicas (RSSpec ?rs))" by simp
  have l: "listedPods ?w =
      [testPod ''test-rs-2-a'' [] PodPending, testPod ''test-rs-2-b'' [] PodPending]"
    by (simp add: listedPods_def ListPods_Inr testWorld_def PodRegistry_generateKey_def
        podPrefix_def)
  have n: "Name (RSMeta ?rs) = ''test-rs-2''"
    by (simp add: testReplicaSet_def testMeta_def)
  have s: "?rs\<lparr>RSStatus := (RSStatus ?rs)\<lparr>StatusReplicas := RSReplicas (RSSpec ?rs)\<rparr>\<rparr> =
      ?rs\<lparr>RSStatus := \<lparr>StatusReplicas = 1, FullyLabeledReplicas = 0, ReadyReplicas = 0,
                  AvailableReplicas = 0\<rparr>\<rparr>"
    by (simp add: testReplicaSet_def)
  from Reconcile_surplus_only_status [OF g refl m, of "\<lambda>k. 0" 0]
  obtain w' where w': "Reconcile ?w (\<lambda>k. 0) 0 ?rs = Some (None, w', 0)"
      "listedPods w' = listedPods ?w"
      "ReplicaSetRegistry_Get (replicaSetStore w') (Name (RSMeta ?rs)) =
         Inr (?rs\<lparr>RSStatus := (RSStatus ?rs)\<lparr>StatusReplicas := RSReplicas (RSSpec ?rs)\<rparr>\<rparr>)"
    by blast
  from g c w' l n s show ?thesis by auto
qed

section \<open>ReplicaSet controller: the pods it creates\<close>
























section \<open>Well-formed pod stores\<close>

lemma set_update_subset: "set (AList.update k v al) \<subseteq> insert (k, v) (set al)"
  by (induction al) auto

lemma set_delete_subset: "set (AList.delete k al) \<subseteq> set al"
  by (induction al) auto

lemma podStore_wf_Nil: "podStore_wf []"
  by (simp add: podStore_wf_def)

lemma podStore_wf_update:
  assumes "podStore_wf s" and "Validate pod = None"
  shows "podStore_wf (AList.update (PodRegistry_generateKey (Name (Meta pod))) pod s)"
proof -
  let ?k = "PodRegistry_generateKey (Name (Meta pod))"
  from assms(1) have d: "distinct (map fst (AList.update ?k pod s))"
    by (simp add: podStore_wf_def distinct_update)
  have "fst kv = PodRegistry_generateKey (Name (Meta (snd kv))) \<and> Validate (snd kv) = None"
    if "kv \<in> set (AList.update ?k pod s)" for kv
  proof -
    from that set_update_subset [of ?k pod s] have "kv = (?k, pod) \<or> kv \<in> set s" by auto
    with assms show ?thesis by (auto simp: podStore_wf_def list_all_iff)
  qed
  with d show ?thesis by (simp add: podStore_wf_def list_all_iff)
qed

lemma podStore_wf_CreatePod:
  assumes "podStore_wf s" and "CreatePod s pod = (e, s', pod')"
  shows "podStore_wf s'"
proof (cases "map_of s (PodRegistry_generateKey (Name (Meta pod)))")
  case (Some existingPod)
  from CreatePod_exists [OF Some] assms show ?thesis by simp
next
  case None
  show ?thesis
  proof (cases "Validate pod")
    case valid: None
    let ?p = "if Status pod = [] then pod\<lparr>Status := PodPending\<rparr> else pod"
    have v: "Validate ?p = None" using valid by simp
    have n: "Name (Meta ?p) = Name (Meta pod)" by simp
    from CreatePod_fresh [OF None valid] assms(2)
    have "s' = AList.update (PodRegistry_generateKey (Name (Meta ?p))) ?p s"
      by (simp only: n) simp
    with podStore_wf_update [OF assms(1) v] show ?thesis by simp
  next
    case (Some verr)
    then have "Validate pod \<noteq> None" by simp
    from CreatePod_invalid [OF None this] assms show ?thesis by simp
  qed
qed

lemma UpdatePod_valid:
  "Validate pod = None \<Longrightarrow>
   UpdatePod s pod = (None, AList.update (PodRegistry_generateKey (Name (Meta pod))) pod s)"
  by (simp add: UpdatePod_def storage_Update_def Let_def)

lemma UpdatePod_invalid:
  "Validate pod \<noteq> None \<Longrightarrow> UpdatePod s pod = (Some ErrPodInvalid, s)"
  by (auto simp: UpdatePod_def Let_def)

lemma podStore_wf_UpdatePod:
  assumes "podStore_wf s" and "UpdatePod s pod = (e, s')"
  shows "podStore_wf s'"
proof (cases "Validate pod")
  case None
  from UpdatePod_valid [OF None, of s] assms(2) podStore_wf_update [OF assms(1) None]
  show ?thesis by simp
next
  case (Some verr)
  then have "Validate pod \<noteq> None" by simp
  from UpdatePod_invalid [OF this, of s] assms show ?thesis by simp
qed

lemma podStore_wf_DeletePod:
  assumes "podStore_wf s" and "DeletePod s name = (e, s')"
  shows "podStore_wf s'"
proof -
  from assms(2) have s': "s' = AList.delete (PodRegistry_generateKey name) s"
    by (simp add: DeletePod_def storage_Delete_def)
  from assms(1) have "distinct (map fst s')"
    unfolding s' by (simp add: podStore_wf_def distinct_delete)
  moreover have "set s' \<subseteq> set s" unfolding s' by (rule set_delete_subset)
  ultimately show ?thesis using assms(1) by (auto simp: podStore_wf_def list_all_iff)
qed

lemma podStore_wf_stored:
  assumes "podStore_wf s" and "(k, pod) \<in> set s"
  shows "k = PodRegistry_generateKey (Name (Meta pod)) \<and> Validate pod = None
         \<and> map_of s (PodRegistry_generateKey (Name (Meta pod))) = Some pod"
proof -
  from assms have k: "k = PodRegistry_generateKey (Name (Meta pod))" and v: "Validate pod = None"
    by (auto simp: podStore_wf_def list_all_iff)
  from assms have "map_of s k = Some pod" by (simp add: podStore_wf_def)
  with k v show ?thesis by simp
qed

lemma PodRegistry_generateKey_inj [simp]:
  "PodRegistry_generateKey a = PodRegistry_generateKey b \<longleftrightarrow> a = b"
  by (simp add: PodRegistry_generateKey_def)

lemma podStore_wf_distinct_names:
  assumes "podStore_wf s"
  shows "distinct (map (\<lambda>kv. Name (Meta (snd kv))) s)"
proof -
  from assms have eq: "map fst s = map (\<lambda>kv. PodRegistry_generateKey (Name (Meta (snd kv)))) s"
    by (auto simp: podStore_wf_def list_all_iff)
  from assms have "distinct (map fst s)" by (simp add: podStore_wf_def)
  then have "distinct (map (\<lambda>kv. PodRegistry_generateKey (Name (Meta (snd kv)))) s)"
    by (simp only: eq [symmetric])
  then have "distinct (map PodRegistry_generateKey (map (\<lambda>kv. Name (Meta (snd kv))) s))"
    by (simp add: o_def)
  then show ?thesis unfolding distinct_map [of PodRegistry_generateKey] by simp
qed

section \<open>Scheduler\<close>

text \<open>
  The loop over a snapshot \<open>ps\<close> of pods, each still stored as it was listed and no two
  with the same name: every update is accepted, every pod of the snapshot ends bound to
  one of the nodes, and no other key of the store changes.
\<close>

lemma scheduleLoop_binds:
  assumes "podStore_wf s"
      and "\<forall>p \<in> set ps. map_of s (PodRegistry_generateKey (Name (Meta p))) = Some p"
      and "distinct (map (\<lambda>p. Name (Meta p)) ps)"
      and "nodes \<noteq> []"
  shows "\<exists>s'. scheduleLoop s nodes rnd j ps = (None, s') \<and> podStore_wf s'
           \<and> (\<forall>p \<in> set ps. \<exists>node \<in> set nodes.
                 map_of s' (PodRegistry_generateKey (Name (Meta p))) =
                   Some (p\<lparr>NodeName := Name (NodeMeta node), Status := PodScheduled\<rparr>))
           \<and> (\<forall>k. k \<notin> (\<lambda>p. PodRegistry_generateKey (Name (Meta p))) ` set ps \<longrightarrow>
                 map_of s' k = map_of s k)
           \<and> map fst s' = map fst s"
  using assms
proof (induction ps arbitrary: s j)
  case Nil
  then show ?case by simp
next
  case (Cons p ps)
  let ?key = "\<lambda>p. PodRegistry_generateKey (Name (Meta p))"
  let ?node = "nodes ! Intn rnd j (length nodes)"
  let ?p' = "p\<lparr>NodeName := Name (NodeMeta ?node), Status := PodScheduled\<rparr>"
  let ?s1 = "AList.update (?key p) ?p' s"
  from Cons.prems(4) have node: "?node \<in> set nodes"
    by (simp add: Intn_def)
  from Cons.prems(2) have stored: "map_of s (?key p) = Some p" by simp
  then have mem: "(?key p, p) \<in> set s" by (rule map_of_SomeD)
  from podStore_wf_stored [OF Cons.prems(1) mem] have valid: "Validate ?p' = None" by simp
  have kp: "?key ?p' = ?key p" by simp
  from UpdatePod_valid [OF valid, of s] have upd: "UpdatePod s ?p' = (None, ?s1)"
    by (simp only: kp)
  from podStore_wf_update [OF Cons.prems(1) valid] have wf1: "podStore_wf ?s1"
    by (simp only: kp)
  have other: "map_of ?s1 k = map_of s k" if "k \<noteq> ?key p" for k
    using that by (simp add: update_conv')
  have rest: "\<forall>q \<in> set ps. map_of ?s1 (?key q) = Some q"
  proof
    fix q assume q: "q \<in> set ps"
    from Cons.prems(3) have "Name (Meta p) \<notin> (\<lambda>p. Name (Meta p)) ` set ps" by simp
    moreover from q have "Name (Meta q) \<in> (\<lambda>p. Name (Meta p)) ` set ps" by (rule imageI)
    ultimately have "Name (Meta q) \<noteq> Name (Meta p)" by metis
    then have "?key q \<noteq> ?key p" by simp
    from other [OF this] Cons.prems(2) q show "map_of ?s1 (?key q) = Some q" by simp
  qed
  from Cons.prems(3) have dist: "distinct (map (\<lambda>p. Name (Meta p)) ps)" by simp
  from Cons.IH [OF wf1 rest dist Cons.prems(4), of "Suc j"] obtain s' where
    loop: "scheduleLoop ?s1 nodes rnd (Suc j) ps = (None, s')"
    and wf': "podStore_wf s'"
    and bound: "\<forall>q \<in> set ps. \<exists>node \<in> set nodes.
                 map_of s' (?key q) =
                   Some (q\<lparr>NodeName := Name (NodeMeta node), Status := PodScheduled\<rparr>)"
    and frame: "\<forall>k. k \<notin> ?key ` set ps \<longrightarrow> map_of s' k = map_of ?s1 k"
    and keys: "map fst s' = map fst ?s1"
    by blast
  have run: "scheduleLoop s nodes rnd j (p # ps) = (None, s')"
    using upd loop by (simp add: Let_def)
  from Cons.prems(3) have "?key p \<notin> ?key ` set ps" by auto
  with frame have "map_of s' (?key p) = map_of ?s1 (?key p)" by blast
  then have here: "map_of s' (?key p) = Some ?p'" by (simp add: update_conv')
  have frame': "\<forall>k. k \<notin> ?key ` set (p # ps) \<longrightarrow> map_of s' k = map_of s k"
    using frame other by auto
  from mem have "fst (?key p, p) \<in> fst ` set s" by (rule imageI)
  then have "?key p \<in> fst ` set s" by simp
  then have keys': "map fst s' = map fst s"
    using keys by (simp add: update_keys)
  from run wf' here node bound frame' keys' show ?case by auto
qed


lemma ListPendingPods_mem:
  assumes "ListPendingPods s = Inr pods"
  shows "pod \<in> set pods \<longleftrightarrow>
         (\<exists>k. (k, pod) \<in> set s \<and> prefix podPrefix k) \<and> Status pod = PodPending"
  using assms by (force simp: ListPendingPods_def listPodsByStatus_Inr)

lemma ListPendingPods_distinct:
  assumes "podStore_wf s" and "ListPendingPods s = Inr pods"
  shows "distinct (map (\<lambda>p. Name (Meta p)) pods)"
proof -
  from podStore_wf_distinct_names [OF assms(1)]
  have "distinct (map (\<lambda>kv. Name (Meta (snd kv))) (filter (\<lambda>kv. prefix podPrefix (fst kv)) s))"
    by (rule distinct_map_filter)
  then have "distinct (map (\<lambda>p. Name (Meta p))
      (map snd (filter (\<lambda>kv. prefix podPrefix (fst kv)) s)))"
    by (simp add: o_def)
  then have "distinct (map (\<lambda>p. Name (Meta p))
      (filter (\<lambda>pod. Status pod = PodPending)
        (map snd (filter (\<lambda>kv. prefix podPrefix (fst kv)) s))))"
    by (rule distinct_map_filter)
  with assms(2) show ?thesis
    by (simp add: ListPendingPods_def listPodsByStatus_Inr)
qed

text \<open>
  One tick on a well-formed store with a non-empty node list, in terms of the store: the
  loop accepts every update, binds every pod of the pending list and changes no other key.
\<close>

lemma schedule_tick:
  assumes wf: "podStore_wf (podStore w)"
      and nodes: "ListNodes (nodeStore w) = Inr nodes"
      and ne: "nodes \<noteq> []"
      and pending: "ListPendingPods (podStore w) = Inr pods"
  shows "\<exists>s'. schedulePendingPods w rnd = (None, w\<lparr>podStore := s'\<rparr>) \<and> podStore_wf s'
           \<and> (\<forall>p \<in> set pods. \<exists>node \<in> set nodes.
                 map_of s' (PodRegistry_generateKey (Name (Meta p))) =
                   Some (p\<lparr>NodeName := Name (NodeMeta node), Status := PodScheduled\<rparr>))
           \<and> (\<forall>k. k \<notin> (\<lambda>p. PodRegistry_generateKey (Name (Meta p))) ` set pods \<longrightarrow>
                 map_of s' k = map_of (podStore w) k)
           \<and> map fst s' = map fst (podStore w)
           \<and> (\<forall>p \<in> set pods.
                 map_of (podStore w) (PodRegistry_generateKey (Name (Meta p))) = Some p)"
proof -
  let ?s = "podStore w"
  let ?key = "\<lambda>p. PodRegistry_generateKey (Name (Meta p))"
  have stored: "\<forall>p \<in> set pods. map_of ?s (?key p) = Some p"
  proof
    fix p assume "p \<in> set pods"
    with ListPendingPods_mem [OF pending] obtain k where "(k, p) \<in> set ?s" by blast
    from podStore_wf_stored [OF wf this] show "map_of ?s (?key p) = Some p" by simp
  qed
  from scheduleLoop_binds [OF wf stored ListPendingPods_distinct [OF wf pending] ne, of rnd 0]
  obtain s' where
    loop: "scheduleLoop ?s nodes rnd 0 pods = (None, s')"
    and rest: "podStore_wf s'"
      "\<forall>p \<in> set pods. \<exists>node \<in> set nodes.
                 map_of s' (?key p) =
                   Some (p\<lparr>NodeName := Name (NodeMeta node), Status := PodScheduled\<rparr>)"
      "\<forall>k. k \<notin> ?key ` set pods \<longrightarrow> map_of s' k = map_of ?s k"
      "map fst s' = map fst ?s"
    by blast
  have run: "schedulePendingPods w rnd = (None, w\<lparr>podStore := s'\<rparr>)"
    using pending nodes ne loop by (simp add: schedulePendingPods_def)
  from run rest stored show ?thesis by blast
qed




section \<open>The pod invariant\<close>







lemma ListNodes_Inr: "\<exists>nodes. ListNodes s = Inr nodes"
  by (simp add: ListNodes_def storage_List_def)

lemma ListPendingPods_Inr: "\<exists>pods. ListPendingPods s = Inr pods"
  by (simp add: ListPendingPods_def listPodsByStatus_Inr)






section \<open>Every writer keeps the pod store well-formed\<close>

text \<open>
  The controller writes pods only through \<open>CreatePod\<close> and the scheduler only through
  \<open>UpdatePod\<close>, so both leave a well-formed store well-formed, whatever they return.
\<close>

lemma createPodsForContainers_wf:
  assumes "podStore_wf s"
      and "createPodsForContainers s src pos rsName cs = Some (e, s', pos')"
  shows "podStore_wf s'"
  using assms
proof (induction cs arbitrary: s pos)
  case Nil
  then show ?case by simp
next
  case (Cons c cs)
  from Cons.prems(2) obtain name pos1 where
    gen: "generatePodNameFromReplicaSet src pos rsName = Some (name, pos1)"
    by (auto split: option.splits)
  obtain e1 s1 pod1 where cr: "CreatePod s (newPod name c) = (e1, s1, pod1)"
    by (rule prod_cases3)
  from podStore_wf_CreatePod [OF Cons.prems(1) cr] have wf1: "podStore_wf s1" .
  show ?case
  proof (cases e1)
    case None
    with Cons.prems(2) gen cr have
      "createPodsForContainers s1 src pos1 rsName cs = Some (e, s', pos')"
      by simp
    from Cons.IH [OF wf1 this] show ?thesis .
  next
    case (Some err)
    with Cons.prems(2) gen cr have "s' = s1" by simp
    with wf1 show ?thesis by simp
  qed
qed

lemma createMissingPods_wf:
  assumes "podStore_wf s"
      and "createMissingPods s src pos rsName cs i d = Some (e, s', pos')"
  shows "podStore_wf s'"
  using assms
proof (induction s src pos rsName cs i d rule: createMissingPods.induct)
  case (1 s src pos rsName cs i d)
  show ?case
  proof (cases "i < d")
    case False
    with "1.prems" show ?thesis
      by (simp add: createMissingPods.simps [of s src pos rsName cs i d])
  next
    case True
    from "1.prems"(2) True obtain e1 s1 pos1 where
      inner: "createPodsForContainers s src pos rsName cs = Some (e1, s1, pos1)"
      by (auto simp: createMissingPods.simps [of s src pos rsName cs i d] split: option.splits)
    from createPodsForContainers_wf [OF "1.prems"(1) inner] have wf1: "podStore_wf s1" .
    show ?thesis
    proof (cases e1)
      case (Some err)
      with "1.prems"(2) True inner have "s' = s1"
        by (simp add: createMissingPods.simps [of s src pos rsName cs i d])
      with wf1 show ?thesis by simp
    next
      case None
      with "1.prems"(2) True inner have
        rest: "createMissingPods s1 src pos1 rsName cs (i + 1) d = Some (e, s', pos')"
        by (simp add: createMissingPods.simps [of s src pos rsName cs i d])
      from "1.IH" [OF True inner refl None refl wf1 rest] show ?thesis .
    qed
  qed
qed

lemma Reconcile_wf:
  assumes "podStore_wf (podStore w)" and "Reconcile w src pos rs = Some (e, w', pos')"
  shows "podStore_wf (podStore w')"
proof (cases "ReplicaSetRegistry_Get (replicaSetStore w) (Name (RSMeta rs))")
  case (Inl err)
  with assms show ?thesis by (simp add: Reconcile_def)
next
  case (Inr currentRS)
  let ?cur = "activePodCount w currentRS"
  let ?des = "sint (RSReplicas (RSSpec currentRS))"
  show ?thesis
  proof (cases "?cur < ?des")
    case True
    from assms(2) Inr True obtain e1 ps where
      cm: "createMissingPods (podStore w) src pos (Name (RSMeta currentRS))
             (Containers (TemplateSpec (Template (RSSpec currentRS)))) ?cur ?des
             = Some (e1, ps, pos')"
      and ps: "podStore w' = ps"
      by (auto simp: Reconcile_def activePodCount_eq ListPods_listedPods Let_def
          split: option.splits prod.splits)
    from createMissingPods_wf [OF assms(1) cm] ps show ?thesis by simp
  next
    case False
    with assms(2) Inr have "podStore w' = podStore w"
      by (auto simp: Reconcile_def activePodCount_eq ListPods_listedPods Let_def
          split: option.splits prod.splits if_splits)
    with assms(1) show ?thesis by simp
  qed
qed

lemma schedulePendingPods_wf:
  assumes wf: "podStore_wf (podStore w)" and run: "schedulePendingPods w rnd = (e, w')"
  shows "podStore_wf (podStore w')"
proof -
  from ListNodes_Inr obtain nodes where nodes: "ListNodes (nodeStore w) = Inr nodes" by blast
  from ListPendingPods_Inr obtain pods where
    pending: "ListPendingPods (podStore w) = Inr pods" by blast
  show ?thesis
  proof (cases "nodes = []")
    case True
    with run nodes pending have "w' = w" by (simp add: schedulePendingPods_def)
    with wf show ?thesis by simp
  next
    case False
    from schedule_tick [OF wf nodes False pending, of rnd] run show ?thesis by auto
  qed
qed

text \<open>
  When the registry holds no ReplicaSet under the name of its argument, \<open>Reconcile\<close>
  returns the registry's error and writes nothing.
\<close>

lemma Reconcile_absent:
  assumes "ReplicaSetRegistry_Get (replicaSetStore w) (Name (RSMeta rs)) = Inl err"
  shows "Reconcile w src pos rs = Some (Some err, w, pos)"
  using assms by (simp add: Reconcile_def)

end
